theory Spec2Isabelle
  imports Main
begin

section \<open>JavaScript values the upload pipeline works on\<close>

text \<open>
  The function under study is \<open>validateCSVAndStoreCSV\<close> of the router module. It
  registers handlers for the events of a CSV parser stream (\<open>headers\<close>, \<open>data\<close>,
  \<open>end\<close>, \<open>error\<close>) and settles one promise. A cell of a parsed row is a string, or
  \<open>undefined\<close> when the row has no such key: \<open>string option\<close>, with \<open>None\<close> for
  \<open>undefined\<close>. Strings are read as ASCII text.
\<close>

type_synonym row = "string \<Rightarrow> string option"

definition to_str :: "string option \<Rightarrow> string" where
  \<comment> \<open>ToString of a cell: \<open>undefined\<close> becomes the text "undefined".\<close>
  "to_str v = (case v of None \<Rightarrow> ''undefined'' | Some s \<Rightarrow> s)"

definition is_ws :: "char \<Rightarrow> bool" where
  \<comment> \<open>the ASCII white space and line terminators that \<open>trim\<close> and the number parsers skip\<close>
  "is_ws c = (c \<in> set [CHR 0x09, CHR 0x0A, CHR 0x0B, CHR 0x0C, CHR 0x0D, CHR '' ''])"

definition is_digit :: "char \<Rightarrow> bool" where
  "is_digit c = (c \<in> set ''0123456789'')"

definition is_hex_digit :: "char \<Rightarrow> bool" where
  "is_hex_digit c = (c \<in> set ''0123456789abcdefABCDEF'')"

definition trim :: "string \<Rightarrow> string" where
  "trim s = rev (dropWhile is_ws (rev (dropWhile is_ws s)))"

fun join_str :: "string \<Rightarrow> string list \<Rightarrow> string" where
  "join_str sep [] = []"
| "join_str sep [x] = x"
| "join_str sep (x # y # ys) = x @ sep @ join_str sep (y # ys)"

definition set_add :: "'a \<Rightarrow> 'a list \<Rightarrow> 'a list" where
  \<comment> \<open>\<open>Set.prototype.add\<close>: a Set keeps its members in insertion order, each once.\<close>
  "set_add x xs = (if x \<in> set xs then xs else xs @ [x])"

subsection \<open>Numbers to text\<close>

definition digit_char :: "nat \<Rightarrow> char" where
  "digit_char d = char_of (48 + d)"

function nat_str :: "nat \<Rightarrow> string" where
  "nat_str n = (if n < 10 then [digit_char n] else nat_str (n div 10) @ [digit_char (n mod 10)])"
  by pat_completeness auto
termination
  by (relation "measure id") auto

declare nat_str.simps [simp del]

definition num_str :: "int \<Rightarrow> string" where
  \<comment> \<open>a counter inside a template literal\<close>
  "num_str i = (if i < 0 then CHR ''-'' # nat_str (nat (- i)) else nat_str (nat i))"

subsection \<open>parseFloat and parseInt\<close>

text \<open>
  A number obtained from text is kept as the numeric text that was read: \<open>Num l\<close> is
  the number that the literal \<open>l\<close> denotes, \<open>NaN\<close> is not-a-number. \<open>parseFloat\<close>
  skips leading white space and reads the longest prefix that is a decimal literal
  (an optional sign, then \<open>Infinity\<close>, or digits with an optional fraction and
  exponent, or a dot followed by digits); whatever follows is ignored.
\<close>

datatype jsnum = NaN | Num string

definition isNaN :: "jsnum \<Rightarrow> bool" where
  "isNaN x = (x = NaN)"

definition exponent_part :: "string \<Rightarrow> string" where
  "exponent_part s =
     (case s of
        [] \<Rightarrow> []
      | e # r \<Rightarrow>
          if e = CHR ''e'' \<or> e = CHR ''E'' then
            (case r of
               [] \<Rightarrow> []
             | c # r' \<Rightarrow>
                 if c = CHR ''+'' \<or> c = CHR ''-'' then
                   (if takeWhile is_digit r' = [] then [] else e # c # takeWhile is_digit r')
                 else if takeWhile is_digit r = [] then []
                 else e # takeWhile is_digit r)
          else [])"

definition unsigned_literal :: "string \<Rightarrow> string option" where
  "unsigned_literal s =
     (if take 8 s = ''Infinity'' then Some ''Infinity''
      else
        let ds = takeWhile is_digit s; r = dropWhile is_digit s in
        if ds \<noteq> [] then
          (case r of
             [] \<Rightarrow> Some ds
           | c # r' \<Rightarrow>
               if c = CHR ''.'' then
                 Some (ds @ ''.'' @ takeWhile is_digit r' @ exponent_part (dropWhile is_digit r'))
               else Some (ds @ exponent_part r))
        else
          (case r of
             [] \<Rightarrow> None
           | c # r' \<Rightarrow>
               if c = CHR ''.'' \<and> takeWhile is_digit r' \<noteq> [] then
                 Some (''.'' @ takeWhile is_digit r' @ exponent_part (dropWhile is_digit r'))
               else None))"

definition parseFloat :: "string option \<Rightarrow> jsnum" where
  "parseFloat v =
     (let t = dropWhile is_ws (to_str v) in
      case t of
        [] \<Rightarrow> NaN
      | c # r \<Rightarrow>
          if c = CHR ''+'' \<or> c = CHR ''-'' then
            (case unsigned_literal r of None \<Rightarrow> NaN | Some l \<Rightarrow> Num (c # l))
          else (case unsigned_literal t of None \<Rightarrow> NaN | Some l \<Rightarrow> Num l))"

definition parseInt :: "string option \<Rightarrow> jsnum" where
  \<comment> \<open>no radix given: base 16 after a \<open>0x\<close> prefix, base 10 otherwise\<close>
  "parseInt v =
     (let t = dropWhile is_ws (to_str v);
          sgn = (if take 1 t = ''-'' then ''-'' else []);
          s = (if take 1 t = ''-'' \<or> take 1 t = ''+'' then drop 1 t else t)
      in if take 2 s = ''0x'' \<or> take 2 s = ''0X'' then
           (let z = takeWhile is_hex_digit (drop 2 s) in
            if z = [] then NaN else Num (sgn @ ''0x'' @ z))
         else
           (let z = takeWhile is_digit s in
            if z = [] then NaN else Num (sgn @ z)))"

subsection \<open>moment: strict parsing against a format, and formatting\<close>

text \<open>
  The three formats of the program use the tokens \<open>YYYY\<close>, \<open>MM\<close>, \<open>DD\<close> and literal
  separators. In strict mode \<open>YYYY\<close> takes exactly four digits, \<open>MM\<close> and \<open>DD\<close>
  exactly two, a separator must be the very character, and no input may be skipped
  or left over. The parsed date is valid when the month is 1 to 12 and the day
  exists in that month of that year.
\<close>

datatype token = YYYY | MM | DD | Lit char

function tokenize :: "string \<Rightarrow> token list" where
  "tokenize s =
     (if s = [] then []
      else if take 4 s = ''YYYY'' then YYYY # tokenize (drop 4 s)
      else if take 2 s = ''MM'' then MM # tokenize (drop 2 s)
      else if take 2 s = ''DD'' then DD # tokenize (drop 2 s)
      else Lit (hd s) # tokenize (tl s))"
  by pat_completeness auto
termination
  by (relation "measure length") auto

declare tokenize.simps [simp del]

definition toInt :: "string \<Rightarrow> nat" where
  "toInt ds = foldl (\<lambda>a c. 10 * a + (of_char c - 48)) 0 ds"

record parts =
  p_year :: "nat option"
  p_month :: "nat option"
  p_day :: "nat option"

definition no_parts :: parts where
  "no_parts = \<lparr>p_year = None, p_month = None, p_day = None\<rparr>"

definition take_digits :: "nat \<Rightarrow> string \<Rightarrow> (string \<times> string) option" where
  \<comment> \<open>exactly \<open>n\<close> digits at the head of the input, and the rest\<close>
  "take_digits n s =
     (if n \<le> length s \<and> list_all is_digit (take n s) then Some (take n s, drop n s) else None)"

fun match_strict :: "token list \<Rightarrow> string \<Rightarrow> parts \<Rightarrow> parts option" where
  "match_strict [] s p = (if s = [] then Some p else None)"
| "match_strict (YYYY # ts) s p =
     (case take_digits 4 s of
        None \<Rightarrow> None
      | Some (ds, r) \<Rightarrow> match_strict ts r (p\<lparr>p_year := Some (toInt ds)\<rparr>))"
| "match_strict (MM # ts) s p =
     (case take_digits 2 s of
        None \<Rightarrow> None
      | Some (ds, r) \<Rightarrow> match_strict ts r (p\<lparr>p_month := Some (toInt ds)\<rparr>))"
| "match_strict (DD # ts) s p =
     (case take_digits 2 s of
        None \<Rightarrow> None
      | Some (ds, r) \<Rightarrow> match_strict ts r (p\<lparr>p_day := Some (toInt ds)\<rparr>))"
| "match_strict (Lit c # ts) s p =
     (case s of [] \<Rightarrow> None | x # r \<Rightarrow> if x = c then match_strict ts r p else None)"

definition isLeapYear :: "nat \<Rightarrow> bool" where
  "isLeapYear y = ((y mod 4 = 0 \<and> y mod 100 \<noteq> 0) \<or> y mod 400 = 0)"

definition daysInMonth :: "nat \<Rightarrow> nat \<Rightarrow> nat" where
  "daysInMonth y m =
     (if m = 2 then (if isLeapYear y then 29 else 28)
      else if m = 4 \<or> m = 6 \<or> m = 9 \<or> m = 11 then 30 else 31)"

type_synonym ymd = "nat \<times> nat \<times> nat"

definition moment_strict :: "string \<Rightarrow> string \<Rightarrow> ymd option" where
  \<comment> \<open>\<open>moment(input, format, true)\<close>; \<open>None\<close> is an invalid moment\<close>
  "moment_strict input fmt =
     (case match_strict (tokenize fmt) input no_parts of
        None \<Rightarrow> None
      | Some p \<Rightarrow>
          (case (p_year p, p_month p, p_day p) of
             (Some y, Some m, Some d) \<Rightarrow>
               if 1 \<le> m \<and> m \<le> 12 \<and> 1 \<le> d \<and> d \<le> daysInMonth y m then Some (y, m, d) else None
           | _ \<Rightarrow> None))"

fun moment_formats :: "string \<Rightarrow> string list \<Rightarrow> ymd option" where
  \<comment> \<open>\<open>moment(input, [formats], true)\<close>: the first format that gives a valid moment\<close>
  "moment_formats input [] = None"
| "moment_formats input (f # fs) =
     (case moment_strict input f of Some d \<Rightarrow> Some d | None \<Rightarrow> moment_formats input fs)"

definition zeroFill :: "nat \<Rightarrow> nat \<Rightarrow> string" where
  "zeroFill n target = replicate (target - length (nat_str n)) CHR ''0'' @ nat_str n"

definition format_date :: "ymd option \<Rightarrow> string" where
  \<comment> \<open>\<open>.format('YYYY-MM-DD')\<close>\<close>
  "format_date m =
     (case m of
        None \<Rightarrow> ''Invalid date''
      | Some (y, mo, d) \<Rightarrow> zeroFill y 4 @ ''-'' @ zeroFill mo 2 @ ''-'' @ zeroFill d 2)"

section \<open>The pipeline\<close>

definition REQUIRED_COLUMNS :: "string list" where
  "REQUIRED_COLUMNS =
     [''Date'', ''Symbol'', ''Series'', ''Prev Close'', ''Open'', ''High'', ''Low'',
      ''Last'', ''Close'', ''VWAP'', ''Volume'', ''Turnover'', ''Trades'',
      ''Deliverable Volume'', ''%Deliverble'']"

definition dateFormats :: "string list" where
  "dateFormats = [''YYYY-MM-DD'', ''MM/DD/YYYY'', ''DD-MM-YYYY'']"

definition numericFields :: "string list" where
  "numericFields =
     [''Prev Close'', ''Open'', ''High'', ''Low'',
      ''Last'', ''Close'', ''VWAP'', ''Volume'',
      ''Turnover'', ''Trades'', ''Deliverable Volume'', ''%Deliverble'']"

text \<open>The document handed to the Stock model; its fields follow the schema of model.js.\<close>

record Stock =
  date :: string
  symbol :: "string option"
  series :: "string option"
  prev_close :: jsnum
  open' :: jsnum
  high :: jsnum
  low :: jsnum
  last' :: jsnum
  close :: jsnum
  vwap :: jsnum
  volume :: jsnum
  turnover :: jsnum
  trades :: jsnum
  deliverable :: jsnum
  percent_deliverable :: jsnum

record report =
  totalRecords :: int
  failedRecords :: int
  successfulRecords :: int

text \<open>
  What the promise settles with: resolved with a message and the counts; rejected with
  an \<open>Error\<close> object (only a message); rejected with the validation object (\<open>error\<close>,
  the counts, \<open>failureReasons\<close>); rejected with an object holding only \<open>error\<close>.
\<close>

datatype outcome =
    Resolved string report
  | RejectedError string
  | RejectedReport string report "string list"
  | RejectedObj string

datatype save_result = Saved | SaveFailed string

text \<open>
  The events the handlers see. \<open>SaveDone k r\<close> is the moment the promise of the
  \<open>k\<close>-th call of \<open>save\<close> (counted from 0) settles and the rest of the \<open>data\<close>
  handler, after its \<open>await\<close>, runs.
\<close>

datatype event =
    Headers "string list"
  | Data row
  | SaveDone nat save_result
  | End
  | StreamError string

record state =
  length' :: int
  numberoffailedrecords :: int
  numberofsucceedrecords :: int
  failurereasons :: "string list"
  errors :: "string list"
  columns :: "string list"
  saves :: "Stock list"
  pending :: "nat list"
  settled :: "outcome option"

definition init :: state where
  "init = \<lparr>length' = 0, numberoffailedrecords = 0, numberofsucceedrecords = 0,
           failurereasons = [], errors = [], columns = [], saves = [], pending = [],
           settled = None\<rparr>"

definition settle :: "outcome \<Rightarrow> state \<Rightarrow> state" where
  \<comment> \<open>\<open>resolve\<close> and \<open>reject\<close>: only the first call settles the promise\<close>
  "settle out s = (if settled s = None then s\<lparr>settled := Some out\<rparr> else s)"

definition add_error :: "string \<Rightarrow> state \<Rightarrow> state" where
  \<comment> \<open>\<open>failurereasons.add(error); errors.push(error)\<close>\<close>
  "add_error e s = s\<lparr>failurereasons := set_add e (failurereasons s), errors := errors s @ [e]\<rparr>"

definition on_headers :: "string list \<Rightarrow> state \<Rightarrow> state" where
  "on_headers hs s = s\<lparr>columns := foldl (\<lambda>cs h. set_add (trim h) cs) (columns s) hs\<rparr>"

definition isValidDate :: "row \<Rightarrow> bool" where
  "isValidDate r = list_ex (\<lambda>fmt. moment_strict (to_str (r ''Date'')) fmt \<noteq> None) dateFormats"

definition date_error :: "int \<Rightarrow> string" where
  "date_error n = ''Invalid date format in row '' @ num_str n"

definition number_error :: "string \<Rightarrow> int \<Rightarrow> string" where
  "number_error field n = ''Invalid number in field '' @ [CHR 0x27] @ field @ [CHR 0x27] @ '' in row '' @ num_str n"

definition save_error :: "int \<Rightarrow> string \<Rightarrow> string" where
  "save_error n msg = ''Error saving record in row '' @ num_str n @ '': '' @ msg"

definition validate_date :: "row \<Rightarrow> state \<times> bool \<Rightarrow> state \<times> bool" where
  "validate_date r sf =
     (case sf of (s, recordfailed) \<Rightarrow>
        if \<not> isValidDate r then (add_error (date_error (length' s)) s, True)
        else (s, recordfailed))"

definition numeric_invalid :: "string option \<Rightarrow> bool" where
  \<comment> \<open>\<open>isNaN(parsedValue) || value === ''\<close>\<close>
  "numeric_invalid v = (isNaN (parseFloat v) \<or> v = Some [])"

definition validate_field :: "row \<Rightarrow> state \<times> bool \<Rightarrow> string \<Rightarrow> state \<times> bool" where
  \<comment> \<open>the body of \<open>numericFields.forEach\<close>\<close>
  "validate_field r sf field =
     (case sf of (s, recordfailed) \<Rightarrow>
        if numeric_invalid (r field) then (add_error (number_error field (length' s)) s, True)
        else (s, recordfailed))"

definition new_Stock :: "row \<Rightarrow> Stock" where
  "new_Stock r =
     \<lparr>date = format_date (moment_formats (to_str (r ''Date'')) dateFormats),
      symbol = r ''Symbol'',
      series = r ''Series'',
      prev_close = parseFloat (r ''Prev Close''),
      open' = parseFloat (r ''Open''),
      high = parseFloat (r ''High''),
      low = parseFloat (r ''Low''),
      last' = parseFloat (r ''Last''),
      close = parseFloat (r ''Close''),
      vwap = parseFloat (r ''VWAP''),
      volume = parseInt (r ''Volume''),
      turnover = parseFloat (r ''Turnover''),
      trades = parseInt (r ''Trades''),
      deliverable = parseInt (r ''Deliverable Volume''),
      percent_deliverable = parseFloat (r ''%Deliverble'')\<rparr>"

definition on_data :: "row \<Rightarrow> state \<Rightarrow> state" where
  \<comment> \<open>the \<open>data\<close> handler up to its \<open>await\<close>: the call of \<open>save\<close> is issued, its result is not yet known\<close>
  "on_data r s =
     (let s1 = s\<lparr>length' := length' s + 1\<rparr>;
          (s2, recordfailed) = foldl (validate_field r) (validate_date r (s1, False)) numericFields
      in if recordfailed then s2\<lparr>numberoffailedrecords := numberoffailedrecords s2 + 1\<rparr>
         else s2\<lparr>saves := saves s2 @ [new_Stock r], pending := pending s2 @ [length (saves s2)]\<rparr>)"

definition on_save_done :: "nat \<Rightarrow> save_result \<Rightarrow> state \<Rightarrow> state" where
  \<comment> \<open>the \<open>data\<close> handler after its \<open>await\<close>; \<open>length\<close> is read when this runs\<close>
  "on_save_done k res s =
     (if k \<in> set (pending s) then
        (let s1 = s\<lparr>pending := removeAll k (pending s)\<rparr> in
         case res of
           Saved \<Rightarrow> s1\<lparr>numberofsucceedrecords := numberofsucceedrecords s1 + 1\<rparr>
         | SaveFailed msg \<Rightarrow>
             (let s2 = add_error (save_error (length' s1) msg) s1
              in s2\<lparr>numberoffailedrecords := numberoffailedrecords s2 + 1\<rparr>))
      else s)"

definition missingColumns :: "string list \<Rightarrow> string list" where
  "missingColumns cols = filter (\<lambda>col. col \<notin> set cols) REQUIRED_COLUMNS"

definition on_end :: "state \<Rightarrow> state" where
  "on_end s =
     (if missingColumns (columns s) \<noteq> [] then
        settle (RejectedError (''Missing columns: '' @ join_str '', '' (missingColumns (columns s)))) s
      else
        (let s1 = s\<lparr>numberofsucceedrecords := length' s - numberoffailedrecords s\<rparr> in
         if errors s1 \<noteq> [] then
           settle (RejectedReport ''Validation errors found''
                     \<lparr>totalRecords = length' s1, failedRecords = numberoffailedrecords s1,
                      successfulRecords = numberofsucceedrecords s1\<rparr>
                     (failurereasons s1)) s1
         else
           settle (Resolved ''File validated successfully''
                     \<lparr>totalRecords = length' s1, failedRecords = numberoffailedrecords s1,
                      successfulRecords = numberofsucceedrecords s1\<rparr>) s1))"

definition on_error :: "string \<Rightarrow> state \<Rightarrow> state" where
  "on_error msg s = settle (RejectedObj msg) s"

fun step :: "state \<Rightarrow> event \<Rightarrow> state" where
  "step s (Headers hs) = on_headers hs s"
| "step s (Data r) = on_data r s"
| "step s (SaveDone k res) = on_save_done k res s"
| "step s End = on_end s"
| "step s (StreamError msg) = on_error msg s"

definition run :: "event list \<Rightarrow> state" where
  "run evs = foldl step init evs"

text \<open>Events of the streaming phase: before the stream has ended or failed.\<close>

fun streaming :: "event \<Rightarrow> bool" where
  "streaming End = False"
| "streaming (StreamError msg) = False"
| "streaming e = True"

fun headers_of :: "event list \<Rightarrow> string list" where
  "headers_of [] = []"
| "headers_of (Headers hs # evs) = hs @ headers_of evs"
| "headers_of (e # evs) = headers_of evs"

definition mk_row :: "(string \<times> string) list \<Rightarrow> row" where
  "mk_row kvs = map_of kvs"

section \<open>Notions used to state the properties\<close>

definition first_occurrences :: "'a list \<Rightarrow> 'a list" where
  \<comment> \<open>a list without its repetitions, every element at the place of its first occurrence\<close>
  "first_occurrences xs = rev (remdups (rev xs))"

definition add_errors :: "string list \<Rightarrow> state \<Rightarrow> state" where
  "add_errors es s = foldl (\<lambda>s e. add_error e s) s es"

definition row_reasons :: "int \<Rightarrow> row \<Rightarrow> string list" where
  \<comment> \<open>the reasons of row \<open>n\<close>: the date, then the numeric fields in their order\<close>
  "row_reasons n r =
     (if isValidDate r then [] else [date_error n]) @
     map (\<lambda>field. number_error field n) (filter (\<lambda>field. numeric_invalid (r field)) numericFields)"

fun is_data :: "event \<Rightarrow> bool" where
  "is_data (Data r) = True"
| "is_data e = False"

definition counters_ok :: "state \<Rightarrow> bool" where
  "counters_ok s =
     (0 \<le> numberoffailedrecords s \<and>
      numberoffailedrecords s + int (length (pending s)) \<le> length' s)"

definition reasons_ok :: "state \<Rightarrow> bool" where
  "reasons_ok s = (failurereasons s = first_occurrences (errors s))"




definition numeric_prefix :: "string \<Rightarrow> bool" where
  \<comment> \<open>the text begins, after an optional sign, with \<open>Infinity\<close>, a digit, or a dot and a digit\<close>
  "numeric_prefix t =
     (let u = (if take 1 t = ''+'' \<or> take 1 t = ''-'' then drop 1 t else t) in
      take 8 u = ''Infinity'' \<or>
      (case u of
         [] \<Rightarrow> False
       | c # u' \<Rightarrow> is_digit c \<or> (c = CHR ''.'' \<and> (case u' of [] \<Rightarrow> False | c' # u'' \<Rightarrow> is_digit c'))))"

definition decimalFields :: "string list" where
  "decimalFields =
     [''Prev Close'', ''Open'', ''High'', ''Low'', ''Last'', ''Close'', ''VWAP'',
      ''Turnover'', ''%Deliverble'']"

definition countFields :: "string list" where
  "countFields = [''Volume'', ''Trades'', ''Deliverable Volume'']"

text \<open>
  The acceptance rule for a numeric cell in the words of the specification: the raw
  string is non-empty and parses as a finite decimal, and as an integer for the count
  fields. It is read in the widest sense: a finite decimal is whatever \<open>parseFloat\<close>
  reads other than an infinity, an integer whatever \<open>parseInt\<close> reads. It is kept
  apart from the program, to be compared with it.
\<close>

definition claimed_numeric_ok :: "string \<Rightarrow> string option \<Rightarrow> bool" where
  "claimed_numeric_ok field v =
     (v \<noteq> None \<and> v \<noteq> Some [] \<and>
      (case parseFloat v of
         NaN \<Rightarrow> False
       | Num l \<Rightarrow> l \<noteq> ''Infinity'' \<and> l \<noteq> ''+Infinity'' \<and> l \<noteq> ''-Infinity'') \<and>
      (if field \<in> set countFields then parseInt v \<noteq> NaN else True))"

text \<open>The rows of the repository's tests.\<close>

definition valid_row :: row where
  "valid_row = mk_row
     [(''Date'', ''2024-01-01''), (''Symbol'', ''ABC''), (''Series'', ''EQ''),
      (''Prev Close'', ''100''), (''Open'', ''101''), (''High'', ''102''), (''Low'', ''99''),
      (''Last'', ''101''), (''Close'', ''102''), (''VWAP'', ''101.5''), (''Volume'', ''1000''),
      (''Turnover'', ''10000''), (''Trades'', ''10''), (''Deliverable Volume'', ''500''),
      (''%Deliverble'', ''50.0'')]"

definition invalid_row :: row where
  "invalid_row = mk_row
     [(''Date'', ''InvalidDate''), (''Symbol'', ''ABC''), (''Series'', ''EQ''),
      (''Prev Close'', ''abc''), (''Open'', ''101''), (''High'', ''102''), (''Low'', ''99''),
      (''Last'', ''101''), (''Close'', ''102''), (''VWAP'', ''101.5''), (''Volume'', ''1000''),
      (''Turnover'', ''10000''), (''Trades'', ''10''), (''Deliverable Volume'', ''500''),
      (''%Deliverble'', ''50.0'')]"

definition infinity_row :: row where
  "infinity_row = valid_row(''Open'' := Some ''Infinity'')"


section \<open>The data handler as a list of reasons\<close>

lemma add_error_fields [simp]:
  "length' (add_error e s) = length' s"
  "numberoffailedrecords (add_error e s) = numberoffailedrecords s"
  "numberofsucceedrecords (add_error e s) = numberofsucceedrecords s"
  "columns (add_error e s) = columns s"
  "saves (add_error e s) = saves s"
  "pending (add_error e s) = pending s"
  "settled (add_error e s) = settled s"
  "errors (add_error e s) = errors s @ [e]"
  "failurereasons (add_error e s) = set_add e (failurereasons s)"
  by (simp_all add: add_error_def)

lemma add_errors_Nil [simp]: "add_errors [] s = s"
  by (simp add: add_errors_def)

lemma add_errors_Cons [simp]: "add_errors (e # es) s = add_errors es (add_error e s)"
  by (simp add: add_errors_def)

lemma add_errors_append: "add_errors (es @ fs) s = add_errors fs (add_errors es s)"
  by (simp add: add_errors_def)

lemma add_errors_fields [simp]:
  "length' (add_errors es s) = length' s"
  "numberoffailedrecords (add_errors es s) = numberoffailedrecords s"
  "numberofsucceedrecords (add_errors es s) = numberofsucceedrecords s"
  "columns (add_errors es s) = columns s"
  "saves (add_errors es s) = saves s"
  "pending (add_errors es s) = pending s"
  "settled (add_errors es s) = settled s"
  "errors (add_errors es s) = errors s @ es"
  by (induction es arbitrary: s; simp)+

lemma failurereasons_add_errors:
  "failurereasons (add_errors es s) = foldl (\<lambda>xs e. set_add e xs) (failurereasons s) es"
  by (induction es arbitrary: s) simp_all

lemma set_foldl_set_add: "set (foldl (\<lambda>xs e. set_add e xs) xs es) = set xs \<union> set es"
  by (induction es arbitrary: xs) (auto simp: set_add_def)

lemma foldl_validate_field:
  "foldl (validate_field r) (s, rf) fs =
     (add_errors (map (\<lambda>field. number_error field (length' s))
                      (filter (\<lambda>field. numeric_invalid (r field)) fs)) s,
      rf \<or> filter (\<lambda>field. numeric_invalid (r field)) fs \<noteq> [])"
  by (induction fs arbitrary: s rf) (simp_all add: validate_field_def)

lemma validate_date_eq:
  "validate_date r (s, False) =
     (add_errors (if isValidDate r then [] else [date_error (length' s)]) s, \<not> isValidDate r)"
  by (simp add: validate_date_def)

lemma on_data_eq:
  "on_data r s =
     (let n = length' s + 1;
          s2 = add_errors (row_reasons n r) (s\<lparr>length' := n\<rparr>)
      in if row_reasons n r \<noteq> [] then s2\<lparr>numberoffailedrecords := numberoffailedrecords s2 + 1\<rparr>
         else s2\<lparr>saves := saves s2 @ [new_Stock r], pending := pending s2 @ [length (saves s2)]\<rparr>)"
  by (simp add: on_data_def validate_date_eq foldl_validate_field row_reasons_def Let_def
        add_errors_append [symmetric] del: add_errors_Cons)



lemma run_snoc: "run (evs @ [e]) = step (run evs) e"
  by (simp add: run_def)

lemma settle_fields [simp]:
  "length' (settle out s) = length' s"
  "numberoffailedrecords (settle out s) = numberoffailedrecords s"
  "numberofsucceedrecords (settle out s) = numberofsucceedrecords s"
  "columns (settle out s) = columns s"
  "saves (settle out s) = saves s"
  "pending (settle out s) = pending s"
  "errors (settle out s) = errors s"
  "failurereasons (settle out s) = failurereasons s"
  by (simp_all add: settle_def)

lemma settled_settle: "settled (settle out s) = (case settled s of None \<Rightarrow> Some out | Some old \<Rightarrow> Some old)"
  by (simp add: settle_def split: option.splits)


text \<open>Once settled, the promise keeps its value.\<close>

lemma settled_step_keep: "settled s = Some out \<Longrightarrow> settled (step s e) = Some out"
  by (cases e)
     (auto simp: on_headers_def on_data_eq Let_def on_save_done_def on_end_def on_error_def
        settled_settle split: save_result.splits)

lemma settled_foldl_keep: "settled s = Some out \<Longrightarrow> settled (foldl step s evs) = Some out"
  by (induction evs arbitrary: s) (simp_all add: settled_step_keep)

lemma settled_step_streaming: "streaming e \<Longrightarrow> settled (step s e) = settled s"
  by (cases e)
     (auto simp: on_headers_def on_data_eq Let_def on_save_done_def split: save_result.splits)

lemma settled_run_streaming: "list_all streaming evs \<Longrightarrow> settled (run evs) = None"
proof (induction evs rule: rev_induct)
  case Nil
  show ?case by (simp add: run_def init_def)
next
  case (snoc e evs)
  then show ?case by (simp add: run_snoc settled_step_streaming)
qed

text \<open>The observed columns are the trimmed header names.\<close>

lemma set_foldl_trim:
  "set (foldl (\<lambda>cs h. set_add (trim h) cs) cs hs) = set cs \<union> trim ` set hs"
  by (induction hs arbitrary: cs) (auto simp: set_add_def)

lemma columns_step:
  "set (columns (step s e)) = set (columns s) \<union> trim ` set (headers_of [e])"
  by (cases e)
     (auto simp: on_headers_def set_foldl_trim on_data_eq Let_def on_save_done_def on_end_def
        on_error_def split: save_result.splits)

lemma headers_of_append: "headers_of (evs @ evs') = headers_of evs @ headers_of evs'"
  by (induction evs rule: headers_of.induct) simp_all

lemma columns_run: "set (columns (run evs)) = trim ` set (headers_of evs)"
proof (induction evs rule: rev_induct)
  case Nil
  show ?case by (simp add: run_def init_def)
next
  case (snoc e evs)
  then show ?case by (simp add: run_snoc columns_step headers_of_append image_Un)
qed

section \<open>Invariants of a run\<close>

text \<open>The counters: no more failures than rows.\<close>


lemma length_removeAll_less: "k \<in> set xs \<Longrightarrow> length (removeAll k xs) < length xs"
  by (induction xs) (auto simp: less_Suc_eq_le length_removeAll_less_eq)

lemma counters_ok_step: "counters_ok s \<Longrightarrow> counters_ok (step s e)"
proof (cases e)
  case (SaveDone k res)
  assume ok: "counters_ok s"
  show ?thesis
  proof (cases "k \<in> set (pending s)")
    case True
    then have "int (length (removeAll k (pending s))) + 1 \<le> int (length (pending s))"
      using length_removeAll_less [of k "pending s"] by linarith
    with ok True SaveDone show ?thesis
      by (cases res) (auto simp: counters_ok_def on_save_done_def Let_def)
  next
    case False
    with ok SaveDone show ?thesis by (simp add: on_save_done_def)
  qed
qed (auto simp: counters_ok_def on_headers_def on_data_eq Let_def on_end_def on_error_def
       settle_def)

lemma counters_ok_run: "counters_ok (run evs)"
proof (induction evs rule: rev_induct)
  case Nil
  show ?case by (simp add: run_def init_def counters_ok_def)
next
  case (snoc e evs)
  then show ?case by (simp add: run_snoc counters_ok_step)
qed

lemma length'_step: "length' (step s e) = length' s + (if is_data e then 1 else 0)"
  by (cases e)
     (auto simp: on_headers_def on_data_eq Let_def on_save_done_def on_end_def on_error_def
        split: save_result.splits)

lemma length'_run: "length' (run evs) = int (length (filter is_data evs))"
proof (induction evs rule: rev_induct)
  case Nil
  show ?case by (simp add: run_def init_def)
next
  case (snoc e evs)
  then show ?case by (simp add: run_snoc length'_step)
qed

text \<open>The end handler on a promise that is still pending.\<close>

lemma on_end_complete:
  assumes "settled s = None" and "missingColumns (columns s) = []"
  shows "settled (on_end s) =
     Some (if errors s \<noteq> []
           then RejectedReport ''Validation errors found''
                  \<lparr>totalRecords = length' s, failedRecords = numberoffailedrecords s,
                   successfulRecords = length' s - numberoffailedrecords s\<rparr> (failurereasons s)
           else Resolved ''File validated successfully''
                  \<lparr>totalRecords = length' s, failedRecords = numberoffailedrecords s,
                   successfulRecords = length' s - numberoffailedrecords s\<rparr>)"
  using assms by (simp add: on_end_def settle_def Let_def)

lemma on_end_missing:
  assumes "settled s = None" and "missingColumns (columns s) \<noteq> []"
  shows "settled (on_end s) =
     Some (RejectedError (''Missing columns: '' @ join_str '', '' (missingColumns (columns s))))"
  using assms by (simp add: on_end_def settle_def)

text \<open>The end handler does not read the running success counter.\<close>

lemma on_end_ignores_running_tally:
  "settled (on_end (s\<lparr>numberofsucceedrecords := c\<rparr>)) = settled (on_end s)"
  by (simp add: on_end_def settle_def Let_def)

lemma missingColumns_empty_iff: "missingColumns cs = [] \<longleftrightarrow> set REQUIRED_COLUMNS \<subseteq> set cs"
  by (auto simp: missingColumns_def filter_empty_conv)

text \<open>The reason set is the list of pushed errors without its repetitions.\<close>

lemma first_occurrences_Nil [simp]: "first_occurrences [] = []"
  by (simp add: first_occurrences_def)

lemma set_first_occurrences [simp]: "set (first_occurrences xs) = set xs"
  by (simp add: first_occurrences_def)

lemma distinct_first_occurrences [simp]: "distinct (first_occurrences xs)"
  by (simp add: first_occurrences_def)

lemma first_occurrences_snoc:
  "first_occurrences (xs @ [x]) = set_add x (first_occurrences xs)"
  by (simp add: first_occurrences_def set_add_def)

lemma reasons_ok_add_error: "reasons_ok s \<Longrightarrow> reasons_ok (add_error e s)"
  by (simp add: reasons_ok_def first_occurrences_snoc)

lemma reasons_ok_add_errors: "reasons_ok s \<Longrightarrow> reasons_ok (add_errors es s)"
  by (induction es arbitrary: s) (simp_all add: reasons_ok_add_error)

lemma reasons_ok_update [simp]:
  "reasons_ok (s\<lparr>length' := a\<rparr>) = reasons_ok s"
  "reasons_ok (s\<lparr>numberoffailedrecords := a\<rparr>) = reasons_ok s"
  "reasons_ok (s\<lparr>numberofsucceedrecords := a\<rparr>) = reasons_ok s"
  "reasons_ok (s\<lparr>columns := c\<rparr>) = reasons_ok s"
  "reasons_ok (s\<lparr>saves := d\<rparr>) = reasons_ok s"
  "reasons_ok (s\<lparr>pending := p\<rparr>) = reasons_ok s"
  "reasons_ok (s\<lparr>settled := q\<rparr>) = reasons_ok s"
  by (simp_all add: reasons_ok_def)

lemma reasons_ok_step: "reasons_ok s \<Longrightarrow> reasons_ok (step s e)"
  by (cases e)
     (auto simp: on_headers_def on_data_eq Let_def on_save_done_def on_end_def on_error_def
        settle_def reasons_ok_add_errors reasons_ok_add_error split: save_result.splits)

lemma reasons_ok_run: "reasons_ok (run evs)"
proof (induction evs rule: rev_induct)
  case Nil
  show ?case by (simp add: run_def init_def reasons_ok_def)
next
  case (snoc e evs)
  then show ?case by (simp add: run_snoc reasons_ok_step)
qed

lemma step_settles:
  assumes "settled s = None" and "settled (step s e) = Some (RejectedReport err r rs)"
  shows "e = End \<and> err = ''Validation errors found'' \<and> rs = failurereasons s"
  using assms
  by (cases e)
     (auto simp: on_headers_def on_data_eq Let_def on_save_done_def on_end_def on_error_def
        settle_def split: save_result.splits if_splits)

text \<open>The reasons of one row are pairwise different.\<close>

lemma date_error_neq_number_error: "date_error n \<noteq> number_error field m"
  by (simp add: date_error_def number_error_def)

lemma number_error_inj: "number_error f n = number_error g n \<Longrightarrow> f = g"
  by (simp add: number_error_def)

lemma distinct_numericFields: "distinct numericFields"
  by (simp add: numericFields_def)

lemma distinct_row_reasons: "distinct (row_reasons n r)"
proof -
  have "inj_on (\<lambda>field. number_error field n) (set (filter (\<lambda>field. numeric_invalid (r field)) numericFields))"
    by (rule inj_onI) (rule number_error_inj)
  then have "distinct (map (\<lambda>field. number_error field n) (filter (\<lambda>field. numeric_invalid (r field)) numericFields))"
    using distinct_numericFields by (simp add: distinct_map)
  then show ?thesis
    by (auto simp: row_reasons_def date_error_neq_number_error)
qed

text \<open>The checks of a row read neither Symbol nor Series.\<close>

lemma isValidDate_upd:
  "isValidDate (r(''Symbol'' := a, ''Series'' := b)) = isValidDate r"
  by (simp add: isValidDate_def)

lemma row_reasons_upd:
  "row_reasons n (r(''Symbol'' := a, ''Series'' := b)) = row_reasons n r"
proof -
  have "filter (\<lambda>field. numeric_invalid ((r(''Symbol'' := a, ''Series'' := b)) field)) numericFields =
        filter (\<lambda>field. numeric_invalid (r field)) numericFields"
    by (rule filter_cong) (auto simp: numericFields_def)
  then show ?thesis
    by (simp add: row_reasons_def isValidDate_upd)
qed

section \<open>Digits, zero filling and strict dates\<close>













































section \<open>What parseFloat rejects\<close>

lemma not_digit_dot: "\<not> is_digit CHR ''.''"
  by (simp add: is_digit_def)

lemma unsigned_literal_None:
  "unsigned_literal u = None \<longleftrightarrow>
     \<not> (take 8 u = ''Infinity'' \<or>
        (case u of
           [] \<Rightarrow> False
         | c # u' \<Rightarrow> is_digit c \<or> (c = CHR ''.'' \<and> (case u' of [] \<Rightarrow> False | c' # u'' \<Rightarrow> is_digit c'))))"
proof (cases u)
  case Nil
  then show ?thesis by (simp add: unsigned_literal_def)
next
  case (Cons c u')
  show ?thesis
  proof (cases "is_digit c")
    case True
    with Cons show ?thesis
      by (simp add: unsigned_literal_def Let_def split: list.splits)
  next
    case False
    with Cons show ?thesis
      by (cases u') (auto simp: unsigned_literal_def Let_def)
  qed
qed

lemma parseFloat_undefined: "parseFloat None = NaN"
  by code_simp

lemma parseFloat_NaN:
  "parseFloat (Some raw) = NaN \<longleftrightarrow> \<not> numeric_prefix (dropWhile is_ws raw)"
proof -
  define t where "t = dropWhile is_ws raw"
  have ts: "to_str (Some raw) = raw"
    by (simp add: to_str_def)
  have pf: "parseFloat (Some raw) =
      (case t of
         [] \<Rightarrow> NaN
       | c # r \<Rightarrow>
           if c = CHR ''+'' \<or> c = CHR ''-'' then
             (case unsigned_literal r of None \<Rightarrow> NaN | Some l \<Rightarrow> Num (c # l))
           else (case unsigned_literal t of None \<Rightarrow> NaN | Some l \<Rightarrow> Num l))"
    unfolding parseFloat_def ts t_def Let_def by (rule refl)
  have "parseFloat (Some raw) = NaN \<longleftrightarrow> \<not> numeric_prefix t"
  proof (cases t)
    case Nil
    then show ?thesis
      by (simp add: pf numeric_prefix_def)
  next
    case (Cons c r)
    show ?thesis
    proof (cases "c = CHR ''+'' \<or> c = CHR ''-''")
      case True
      with Cons show ?thesis
        using unsigned_literal_None [of r]
        by (auto simp: pf numeric_prefix_def split: option.splits)
    next
      case False
      with Cons show ?thesis
        using unsigned_literal_None [of "c # r"]
        by (auto simp: pf numeric_prefix_def split: option.splits)
    qed
  qed
  then show ?thesis
    by (simp add: t_def)
qed

lemma numeric_prefix_Nil: "\<not> numeric_prefix []"
  by (simp add: numeric_prefix_def)

lemma numeric_invalid_iff:
  "numeric_invalid v \<longleftrightarrow>
     \<not> (case v of None \<Rightarrow> False | Some raw \<Rightarrow> numeric_prefix (dropWhile is_ws raw))"
proof (cases v)
  case None
  then show ?thesis
    by (simp add: numeric_invalid_def isNaN_def parseFloat_undefined)
next
  case (Some raw)
  then show ?thesis
    by (auto simp: numeric_invalid_def isNaN_def parseFloat_NaN numeric_prefix_Nil)
qed

text \<open>What does hold for a failing save.\<close>

lemma on_save_done_failed:
  assumes "k \<in> set (pending s)"
  shows "numberoffailedrecords (on_save_done k (SaveFailed msg) s) = numberoffailedrecords s + 1 \<and>
         errors (on_save_done k (SaveFailed msg) s) = errors s @ [save_error (length' s) msg] \<and>
         save_error (length' s) msg \<in> set (failurereasons (on_save_done k (SaveFailed msg) s)) \<and>
         length' (on_save_done k (SaveFailed msg) s) = length' s \<and>
         settled (on_save_done k (SaveFailed msg) s) = settled s"
  using assms by (simp add: on_save_done_def Let_def set_add_def)

text \<open>The reason of a numeric field occurs once among the reasons of its row, or not at all.\<close>

lemma count_list_notin: "x \<notin> set xs \<Longrightarrow> count_list xs x = 0"
  by (induction xs) auto

lemma count_list_map_filter:
  assumes "inj f"
  shows "distinct xs \<Longrightarrow> x \<in> set xs \<Longrightarrow>
         count_list (map f (filter P xs)) (f x) = (if P x then 1 else 0)"
proof (induction xs)
  case Nil
  then show ?case by simp
next
  case (Cons a xs)
  show ?case
  proof (cases "x = a")
    case True
    with Cons.prems have "f a \<notin> set (map f (filter P xs))"
      using assms by (auto dest: injD)
    then have "count_list (map f (filter P xs)) (f a) = 0"
      by (rule count_list_notin)
    with True show ?thesis by simp
  next
    case False
    then have "f a \<noteq> f x"
      using assms by (auto dest: injD)
    with False Cons show ?thesis by simp
  qed
qed

lemma inj_number_error: "inj (\<lambda>field. number_error field n)"
  by (rule injI) (rule number_error_inj)

lemma count_row_reasons:
  assumes "field \<in> set numericFields"
  shows "count_list (row_reasons n r) (number_error field n) =
           (if numeric_invalid (r field) then 1 else 0)"
proof -
  have "count_list (if isValidDate r then [] else [date_error n]) (number_error field n) = 0"
    using date_error_neq_number_error [of n field n] by auto
  moreover have "count_list (map (\<lambda>field. number_error field n)
        (filter (\<lambda>field. numeric_invalid (r field)) numericFields)) (number_error field n) =
      (if numeric_invalid (r field) then 1 else 0)"
    using count_list_map_filter [OF inj_number_error distinct_numericFields assms] .
  ultimately show ?thesis
    by (simp add: row_reasons_def)
qed

lemma decimalFields_numeric: "field \<in> set decimalFields \<Longrightarrow> field \<in> set numericFields"
  by (auto simp: decimalFields_def numericFields_def)

section \<open>The claims\<close>

text \<open>
  C1. For every input whose header holds the 15 required columns, the report that the
  end of the stream produces, success or failure, satisfies
  successfulRecords + failedRecords = totalRecords: totalRecords is the number of rows,
  failedRecords the failure counter, and successfulRecords is computed at the end as
  the total minus the failures, whatever the running success counter holds. Events
  after the end do not change the report.
\<close>

theorem report_counts_add_up:
  assumes "list_all streaming evs"
    and "set REQUIRED_COLUMNS \<subseteq> trim ` set (headers_of evs)"
  shows "\<exists>r. (settled (run (evs @ End # later)) = Some (Resolved ''File validated successfully'' r) \<or>
              (\<exists>rs. settled (run (evs @ End # later)) =
                      Some (RejectedReport ''Validation errors found'' r rs))) \<and>
             successfulRecords r + failedRecords r = totalRecords r \<and>
             totalRecords r = int (length (filter is_data evs)) \<and>
             failedRecords r = numberoffailedrecords (run evs) \<and>
             successfulRecords r = length' (run evs) - numberoffailedrecords (run evs) \<and>
             0 \<le> failedRecords r \<and> 0 \<le> successfulRecords r"
proof -
  let ?s = "run evs"
  let ?r = "\<lparr>totalRecords = length' ?s, failedRecords = numberoffailedrecords ?s,
             successfulRecords = length' ?s - numberoffailedrecords ?s\<rparr>"
  have pend: "settled ?s = None"
    using assms(1) by (rule settled_run_streaming)
  have cols: "missingColumns (columns ?s) = []"
    using assms(2) by (simp add: missingColumns_empty_iff columns_run)
  have run: "run (evs @ End # later) = foldl step (on_end ?s) later"
    by (simp add: run_def)
  have out: "settled (run (evs @ End # later)) = settled (on_end ?s)"
    unfolding run using on_end_complete [OF pend cols] by (simp add: settled_foldl_keep)
  have ok: "0 \<le> numberoffailedrecords ?s" "numberoffailedrecords ?s \<le> length' ?s"
    using counters_ok_run [of evs] by (simp_all add: counters_ok_def)
  show ?thesis
  proof (cases "errors ?s = []")
    case True
    then have "settled (run (evs @ End # later)) = Some (Resolved ''File validated successfully'' ?r)"
      using out on_end_complete [OF pend cols] by simp
    then show ?thesis
      using ok by (intro exI [of _ ?r]) (simp add: length'_run)
  next
    case False
    then have "settled (run (evs @ End # later)) =
        Some (RejectedReport ''Validation errors found'' ?r (failurereasons ?s))"
      using out on_end_complete [OF pend cols] by simp
    then show ?thesis
      using ok by (intro exI [of _ ?r]) (simp add: length'_run)
  qed
qed

theorem report_counts_add_up_witness:
  "list_all streaming [Headers REQUIRED_COLUMNS, Data valid_row, Data invalid_row] \<and>
   set REQUIRED_COLUMNS \<subseteq> trim ` set (headers_of [Headers REQUIRED_COLUMNS, Data valid_row, Data invalid_row]) \<and>
   (\<exists>r. (settled (run ([Headers REQUIRED_COLUMNS, Data valid_row, Data invalid_row] @ End # [SaveDone 0 Saved])) =
            Some (Resolved ''File validated successfully'' r) \<or>
          (\<exists>rs. settled (run ([Headers REQUIRED_COLUMNS, Data valid_row, Data invalid_row] @ End # [SaveDone 0 Saved])) =
                  Some (RejectedReport ''Validation errors found'' r rs))) \<and>
         successfulRecords r + failedRecords r = totalRecords r \<and>
         totalRecords r = 2)"
proof -
  let ?evs = "[Headers REQUIRED_COLUMNS, Data valid_row, Data invalid_row]"
  have h1: "list_all streaming ?evs"
    by simp
  have h2: "set REQUIRED_COLUMNS \<subseteq> trim ` set (headers_of ?evs)"
    by code_simp
  from report_counts_add_up [OF h1 h2, of "[SaveDone 0 Saved]"] h1 h2
  show ?thesis by auto
qed

text \<open>
  C2. When the trimmed header names miss at least one of the 15 required columns, the
  promise is rejected with the single error "Missing columns: " followed by the missing
  names joined with ", ". The outcome holds no counts and no row reasons, and it is the
  same for every sequence of rows and save results: it depends on the headers only.
\<close>

theorem missing_columns_supersede:
  assumes "list_all streaming evs"
    and "\<not> set REQUIRED_COLUMNS \<subseteq> trim ` set (headers_of evs)"
  shows "settled (run (evs @ End # later)) =
           Some (RejectedError (''Missing columns: '' @
             join_str '', '' (filter (\<lambda>col. col \<notin> trim ` set (headers_of evs)) REQUIRED_COLUMNS)))"
proof -
  let ?s = "run evs"
  have pend: "settled ?s = None"
    using assms(1) by (rule settled_run_streaming)
  have miss: "missingColumns (columns ?s) \<noteq> []"
    using assms(2) by (simp add: missingColumns_empty_iff columns_run)
  have eq: "missingColumns (columns ?s) =
      filter (\<lambda>col. col \<notin> trim ` set (headers_of evs)) REQUIRED_COLUMNS"
    by (simp add: missingColumns_def columns_run)
  have "settled (run (evs @ End # later)) = settled (foldl step (on_end ?s) later)"
    by (simp add: run_def)
  also have "\<dots> = settled (on_end ?s)"
    using on_end_missing [OF pend miss] by (simp add: settled_foldl_keep)
  finally show ?thesis
    using on_end_missing [OF pend miss] eq by simp
qed

theorem missing_columns_supersede_witness:
  "list_all streaming [Headers (take 13 REQUIRED_COLUMNS), Data valid_row, SaveDone 0 Saved] \<and>
   \<not> set REQUIRED_COLUMNS \<subseteq>
       trim ` set (headers_of [Headers (take 13 REQUIRED_COLUMNS), Data valid_row, SaveDone 0 Saved]) \<and>
   settled (run ([Headers (take 13 REQUIRED_COLUMNS), Data valid_row, SaveDone 0 Saved] @ End # [])) =
     Some (RejectedError ''Missing columns: Deliverable Volume, %Deliverble'')"
proof -
  let ?evs = "[Headers (take 13 REQUIRED_COLUMNS), Data valid_row, SaveDone 0 Saved]"
  have h1: "list_all streaming ?evs"
    by simp
  have h2: "\<not> set REQUIRED_COLUMNS \<subseteq> trim ` set (headers_of ?evs)"
    by code_simp
  have j: "''Missing columns: '' @
      join_str '', '' (filter (\<lambda>col. col \<notin> trim ` set (headers_of ?evs)) REQUIRED_COLUMNS) =
      ''Missing columns: Deliverable Volume, %Deliverble''"
    by code_simp
  from missing_columns_supersede [OF h1 h2, of "[]"] h1 h2 j
  show ?thesis by simp
qed

text \<open>
  C4. The data handler checks the date and each of the twelve numeric fields on its own,
  without stopping at a failure: the row pushes one reason per failing field, in the
  order date, then numeric fields; the reasons of a row with k failing fields are k
  pairwise different strings, all of them in the reason set afterwards; and the failure
  counter grows by exactly one when at least one field failed, by nothing otherwise.
\<close>

theorem row_checks_independent:
  "errors (on_data r s) = errors s @ row_reasons (length' s + 1) r \<and>
   set (failurereasons (on_data r s)) = set (failurereasons s) \<union> set (row_reasons (length' s + 1) r) \<and>
   distinct (row_reasons (length' s + 1) r) \<and>
   length (row_reasons (length' s + 1) r) =
     (if isValidDate r then 0 else 1) +
     length (filter (\<lambda>field. numeric_invalid (r field)) numericFields) \<and>
   numberoffailedrecords (on_data r s) =
     numberoffailedrecords s + (if row_reasons (length' s + 1) r = [] then 0 else 1) \<and>
   length' (on_data r s) = length' s + 1"
  by (simp add: on_data_eq Let_def failurereasons_add_errors set_foldl_set_add
        distinct_row_reasons)
     (simp add: row_reasons_def)

theorem row_checks_independent_witness:
  "errors (on_data invalid_row init) = [date_error 1, number_error ''Prev Close'' 1] \<and>
   length (row_reasons 1 invalid_row) = 2 \<and>
   distinct (row_reasons 1 invalid_row) \<and>
   numberoffailedrecords (on_data invalid_row init) = 1"
proof -
  have r: "row_reasons 1 invalid_row = [date_error 1, number_error ''Prev Close'' 1]"
    by code_simp
  have i: "length' init = 0" "errors init = []" "numberoffailedrecords init = 0"
    by (simp_all add: init_def)
  from row_checks_independent [of invalid_row init] show ?thesis
    by (simp add: r i)
qed

text \<open>
  C5. In every failure report, failureReasons has no repeated string, adding one of its
  strings again leaves it as it is, and it is the sequence of the reasons recorded up
  to the end of the stream, each at the place of its first occurrence.
\<close>

theorem failure_reasons_deduplicated:
  assumes "settled (run evs) = Some (RejectedReport err r rs)"
  shows "distinct rs \<and> (\<forall>x \<in> set rs. set_add x rs = rs) \<and>
         (\<exists>pre post. evs = pre @ End # post \<and> rs = first_occurrences (errors (run pre)))"
proof -
  have "\<exists>pre post. evs = pre @ End # post \<and> rs = first_occurrences (errors (run pre))"
    using assms
  proof (induction evs rule: rev_induct)
    case Nil
    then show ?case by (simp add: run_def init_def)
  next
    case (snoc e evs)
    show ?case
    proof (cases "settled (run evs)")
      case None
      with snoc.prems have "e = End \<and> rs = failurereasons (run evs)"
        using step_settles [of "run evs" e err r rs] by (simp add: run_snoc)
      then have "evs @ [e] = evs @ End # [] \<and> rs = first_occurrences (errors (run evs))"
        using reasons_ok_run [of evs] by (simp add: reasons_ok_def)
      then show ?thesis by blast
    next
      case (Some out)
      then have "settled (run (evs @ [e])) = Some out"
        by (simp add: run_snoc settled_step_keep)
      with snoc.prems Some have "settled (run evs) = Some (RejectedReport err r rs)"
        by simp
      then obtain pre post where "evs = pre @ End # post"
        and "rs = first_occurrences (errors (run pre))"
        using snoc.IH by blast
      then have "evs @ [e] = pre @ End # (post @ [e]) \<and> rs = first_occurrences (errors (run pre))"
        by simp
      then show ?thesis by blast
    qed
  qed
  then show ?thesis
    by (auto simp: set_add_def)
qed

theorem failure_reasons_deduplicated_witness:
  "settled (run [Headers REQUIRED_COLUMNS, Data valid_row, Data valid_row,
                 SaveDone 0 (SaveFailed ''E''), SaveDone 1 (SaveFailed ''E''), End]) =
     Some (RejectedReport ''Validation errors found''
            \<lparr>totalRecords = 2, failedRecords = 2, successfulRecords = 0\<rparr>
            [''Error saving record in row 2: E'']) \<and>
   distinct [''Error saving record in row 2: E''] \<and>
   set_add ''Error saving record in row 2: E'' [''Error saving record in row 2: E''] =
     [''Error saving record in row 2: E''] \<and>
   (\<exists>pre post.
      [Headers REQUIRED_COLUMNS, Data valid_row, Data valid_row,
       SaveDone 0 (SaveFailed ''E''), SaveDone 1 (SaveFailed ''E''), End] = pre @ End # post \<and>
      [''Error saving record in row 2: E''] = first_occurrences (errors (run pre)))"
proof -
  have h: "settled (run [Headers REQUIRED_COLUMNS, Data valid_row, Data valid_row,
                 SaveDone 0 (SaveFailed ''E''), SaveDone 1 (SaveFailed ''E''), End]) =
     Some (RejectedReport ''Validation errors found''
            \<lparr>totalRecords = 2, failedRecords = 2, successfulRecords = 0\<rparr>
            [''Error saving record in row 2: E''])"
    by code_simp
  from failure_reasons_deduplicated [OF h] h show ?thesis
    by simp
qed

text \<open>
  C10. The checks of a row never read Symbol or Series: whatever these two cells hold,
  also the empty string or nothing, the reasons and the failure counter are the same;
  and a row whose date and numeric fields validate is handed to \<open>save\<close> with symbol
  and series exactly as they stand in the row.
\<close>

theorem symbol_series_not_validated:
  "row_reasons n (r(''Symbol'' := a, ''Series'' := b)) = row_reasons n r \<and>
   errors (on_data (r(''Symbol'' := a, ''Series'' := b)) s) = errors (on_data r s) \<and>
   failurereasons (on_data (r(''Symbol'' := a, ''Series'' := b)) s) = failurereasons (on_data r s) \<and>
   numberoffailedrecords (on_data (r(''Symbol'' := a, ''Series'' := b)) s) =
     numberoffailedrecords (on_data r s) \<and>
   (row_reasons (length' s + 1) r = [] \<longrightarrow>
      saves (on_data (r(''Symbol'' := a, ''Series'' := b)) s) =
        saves s @ [new_Stock (r(''Symbol'' := a, ''Series'' := b))] \<and>
      pending (on_data (r(''Symbol'' := a, ''Series'' := b)) s) = pending s @ [length (saves s)] \<and>
      symbol (new_Stock (r(''Symbol'' := a, ''Series'' := b))) = a \<and>
      series (new_Stock (r(''Symbol'' := a, ''Series'' := b))) = b \<and>
      new_Stock (r(''Symbol'' := a, ''Series'' := b)) = (new_Stock r)\<lparr>symbol := a, series := b\<rparr>)"
  by (simp add: on_data_eq Let_def row_reasons_upd failurereasons_add_errors new_Stock_def)

theorem symbol_series_not_validated_witness:
  "row_reasons 1 valid_row = [] \<and>
   row_reasons 1 (valid_row(''Symbol'' := None, ''Series'' := Some [])) = [] \<and>
   saves (on_data (valid_row(''Symbol'' := None, ''Series'' := Some [])) init) =
     [(new_Stock valid_row)\<lparr>symbol := None, series := Some []\<rparr>] \<and>
   pending (on_data (valid_row(''Symbol'' := None, ''Series'' := Some [])) init) = [0] \<and>
   errors (on_data (valid_row(''Symbol'' := None, ''Series'' := Some [])) init) = []"
proof -
  have r: "row_reasons 1 valid_row = []"
    by code_simp
  have e: "errors (on_data valid_row init) = []"
    by code_simp
  have i: "length' init = 0" "saves init = []" "pending init = []"
    by (simp_all add: init_def)
  from symbol_series_not_validated [of 1 valid_row None "Some []" init] show ?thesis
    by (simp add: r e i)
qed



text \<open>
  C3, as the program has it, for the nine decimal columns Prev Close, Open, High, Low,
  Last, Close, VWAP, Turnover and %Deliverble. The cell of such a column is accepted
  exactly when it is present and, after leading white space and an optional sign,
  begins with \<open>Infinity\<close>, with a digit, or with a dot followed by a digit: this is
  when \<open>parseFloat\<close> does not give NaN, so there is no test for finiteness and what
  follows the numeric beginning is ignored. The data handler keeps the errors it had,
  pushes the reason "Invalid number in field '<field>' in row <n>" once when the cell
  fails and not at all when it passes, and a pushed reason is in the reason set
  afterwards. Nothing is said here about the count columns.
\<close>

theorem numeric_field_rule:
  assumes "field \<in> set decimalFields"
  shows "take (length (errors s)) (errors (on_data r s)) = errors s \<and>
         count_list (drop (length (errors s)) (errors (on_data r s)))
                    (number_error field (length' s + 1)) =
           (if (case r field of None \<Rightarrow> False
                | Some raw \<Rightarrow> numeric_prefix (dropWhile is_ws raw)) then 0 else 1) \<and>
         (number_error field (length' s + 1) \<in> set (failurereasons (on_data r s)) \<longleftrightarrow>
            number_error field (length' s + 1) \<in> set (failurereasons s) \<or>
            \<not> (case r field of None \<Rightarrow> False
               | Some raw \<Rightarrow> numeric_prefix (dropWhile is_ws raw)))"
proof -
  let ?n = "length' s + 1"
  have num: "field \<in> set numericFields"
    using assms by (rule decimalFields_numeric)
  have e: "errors (on_data r s) = errors s @ row_reasons ?n r"
    by (simp add: on_data_eq Let_def)
  have f: "set (failurereasons (on_data r s)) = set (failurereasons s) \<union> set (row_reasons ?n r)"
    by (simp add: on_data_eq Let_def failurereasons_add_errors set_foldl_set_add)
  have c: "count_list (row_reasons ?n r) (number_error field ?n) =
      (if numeric_invalid (r field) then 1 else 0)"
    using num by (rule count_row_reasons)
  have m: "number_error field ?n \<in> set (row_reasons ?n r) \<longleftrightarrow> numeric_invalid (r field)"
    using c count_list_0_iff [of "row_reasons ?n r" "number_error field ?n"]
    by (auto split: if_splits)
  show ?thesis
    using c m numeric_invalid_iff [of "r field"] by (simp add: e f)
qed

theorem numeric_field_rule_witness:
  "''Prev Close'' \<in> set decimalFields \<and>
   count_list (drop (length (errors init)) (errors (on_data invalid_row init)))
              (number_error ''Prev Close'' (length' init + 1)) = 1 \<and>
   number_error ''Prev Close'' (length' init + 1) \<in> set (failurereasons (on_data invalid_row init)) \<and>
   invalid_row ''Prev Close'' = Some ''abc''"
proof -
  have h: "''Prev Close'' \<in> set decimalFields"
    by (simp add: decimalFields_def)
  have v: "invalid_row ''Prev Close'' = Some ''abc''"
    by code_simp
  have p: "\<not> numeric_prefix (dropWhile is_ws ''abc'')"
    by code_simp
  from numeric_field_rule [OF h, of init invalid_row] h v p show ?thesis
    by simp
qed

text \<open>
  C3, as the specification words it, fails on the cell \<open>Infinity\<close> in the decimal
  column Open: the program accepts the row without any reason and hands the number
  read from \<open>Infinity\<close> to \<open>save\<close>, although it is no finite decimal.
\<close>

theorem numeric_field_counterexample:
  "\<not> numeric_invalid (infinity_row ''Open'') \<and>
   \<not> claimed_numeric_ok ''Open'' (infinity_row ''Open'') \<and>
   infinity_row ''Open'' = Some ''Infinity'' \<and>
   errors (on_data infinity_row init) = [] \<and>
   open' (new_Stock infinity_row) = Num ''Infinity''"
  by code_simp

text \<open>
  C6 at an empty stream: with no header and no row the promise is rejected with the
  missing-columns \<open>Error\<close> that names all 15 columns, not with the object whose
  \<open>error\<close> is "Validation errors found"; an error event of the stream is passed on as
  an object with the raw message; a complete header without rows resolves with three
  zero counts.
\<close>

theorem empty_stream_outcome:
  "settled (run [End]) =
     Some (RejectedError (''Missing columns: '' @ join_str '', '' REQUIRED_COLUMNS)) \<and>
   settled (run [StreamError ''ENOENT'']) = Some (RejectedObj ''ENOENT'') \<and>
   settled (run [Headers REQUIRED_COLUMNS, End]) =
     Some (Resolved ''File validated successfully''
             \<lparr>totalRecords = 0, failedRecords = 0, successfulRecords = 0\<rparr>)"
  by code_simp

text \<open>
  C7 at two accepted rows whose first save fails after the second row was read: the
  recorded reason names row 2, the value of the row counter when the failure arrived,
  and not row 1, whose save failed.
\<close>

theorem save_error_row_number:
  "failurereasons (run [Headers REQUIRED_COLUMNS, Data valid_row, Data valid_row,
                        SaveDone 0 (SaveFailed ''E''), SaveDone 1 Saved, End]) =
     [save_error 2 ''E''] \<and>
   save_error 2 ''E'' = ''Error saving record in row 2: E'' \<and>
   settled (run [Headers REQUIRED_COLUMNS, Data valid_row, Data valid_row,
                 SaveDone 0 (SaveFailed ''E''), SaveDone 1 Saved, End]) =
     Some (RejectedReport ''Validation errors found''
             \<lparr>totalRecords = 2, failedRecords = 1, successfulRecords = 1\<rparr>
             [''Error saving record in row 2: E''])"
  by code_simp

text \<open>
  C8 at one accepted row whose save fails after the end of the stream: the promise has
  been resolved with one successful and no failed record while the save was still
  pending; the failure is counted and recorded afterwards, in no report.
\<close>

theorem report_before_saves_settle:
  "pending (run [Headers REQUIRED_COLUMNS, Data valid_row]) = [0] \<and>
   settled (run [Headers REQUIRED_COLUMNS, Data valid_row, End, SaveDone 0 (SaveFailed ''E'')]) =
     Some (Resolved ''File validated successfully''
             \<lparr>totalRecords = 1, failedRecords = 0, successfulRecords = 1\<rparr>) \<and>
   numberoffailedrecords
     (run [Headers REQUIRED_COLUMNS, Data valid_row, End, SaveDone 0 (SaveFailed ''E'')]) = 1 \<and>
   errors (run [Headers REQUIRED_COLUMNS, Data valid_row, End, SaveDone 0 (SaveFailed ''E'')]) =
     [''Error saving record in row 1: E'']"
  by code_simp

end
